theory Spec2Isabelle
  imports Main "HOL-Library.Word"
begin

unbundle bit_operations_syntax

section \<open>The register block\<close>

text \<open>
  The register block is a byte-addressed region. A 32-bit field occupies four
  consecutive bytes, least significant byte first (the layout table of the
  interface is little-endian). A \<open>float\<close> is kept as its 32-bit pattern: the
  reader only loads and prints it, it never computes with it.
\<close>

type_synonym byte = "8 word"
type_synonym u32 = "32 word"
type_synonym float32 = "32 word"

definition bytes_of_u32 :: "u32 \<Rightarrow> byte list" where
  "bytes_of_u32 w =
     [ucast w, ucast (drop_bit 8 w), ucast (drop_bit 16 w), ucast (drop_bit 24 w)]"

fun u32_of_bytes :: "byte list \<Rightarrow> u32" where
  "u32_of_bytes [b0, b1, b2, b3] =
     ucast b0 OR push_bit 8 (ucast b1) OR push_bit 16 (ucast b2) OR push_bit 24 (ucast b3)"
| "u32_of_bytes _ = 0"

definition load_u32 :: "byte list \<Rightarrow> nat \<Rightarrow> u32" where
  "load_u32 bs off = u32_of_bytes (take 4 (drop off bs))"

definition poke_u32 :: "byte list \<Rightarrow> nat \<Rightarrow> u32 \<Rightarrow> byte list" where
  "poke_u32 bs off v = take off bs @ bytes_of_u32 v @ drop (off + 4) bs"

subsection \<open>Constants of the two source files\<close>

definition DRV_NAME :: string where "DRV_NAME = ''uio_sim_sensor''"
definition MMIO_SIZE :: nat where "MMIO_SIZE = 4096"

definition PAGE :: nat where "PAGE = 4096"
definition ACCEL_X :: nat where "ACCEL_X = 0x010"
definition ACCEL_Y :: nat where "ACCEL_Y = 0x014"
definition ACCEL_Z :: nat where "ACCEL_Z = 0x018"
definition AIRSPEED :: nat where "AIRSPEED = 0x050"

text \<open>Kernel error numbers, returned negated by \<open>sim_init\<close>.\<close>

definition ENOMEM :: int where "ENOMEM = 12"
definition ENODEV :: int where "ENODEV = 19"

section \<open>The machine: kernel memory, the UIO core, the reader's process\<close>

datatype memtype = UIO_MEM_NONE | UIO_MEM_PHYS | UIO_MEM_LOGICAL | UIO_MEM_VIRTUAL

datatype irqreturn = IRQ_NONE | IRQ_HANDLED

datatype handler_ref = No_handler | Ref_sim_handler

definition UIO_IRQ_NONE :: int where "UIO_IRQ_NONE = 0"

record uio_mem =
  um_addr :: "nat option"
  um_size :: nat
  um_memtype :: memtype

record uio_info =
  ui_name :: string
  ui_version :: string
  ui_irq :: int
  ui_handler :: handler_ref
  ui_mem0 :: uio_mem

text \<open>
  What the kernel side does, in order. A registration records the bytes of the
  region it hands to the UIO core, as they are at that instant.
\<close>

datatype kevent =
    EvKzalloc nat "nat option"
  | EvStore32 nat nat u32
  | EvRegister uio_info "byte list option" int
  | EvUnregister uio_info
  | EvKfree "nat option"
  | EvPrintk string

datatype kfault = BadStore | BadFree

datatype prot = PROT_READ | PROT_WRITE

datatype errno = ENOENT | EACCES | EINVAL

text \<open>
  What a path resolves to: a memory-backed resource of \<open>n_size\<close> bytes whose
  bytes are the kernel block at \<open>n_block\<close>.
\<close>

record node =
  n_block :: nat
  n_size :: nat
  n_readable :: bool

text \<open>A mapping in the reader's address space: \<open>v_len\<close> bytes over a block.\<close>

record view =
  v_block :: nat
  v_len :: nat
  v_prot :: prot

datatype uevent =
    EvOpen string "errno option"
  | EvMmap nat prot "errno option"
  | EvLoad nat
  | EvPrintf float32 float32 float32 float32
  | EvUsleep nat
  | EvMunmap nat
  | EvClose
  | EvPerror string errno

datatype ufault = SIGSEGV | SIGBUS

text \<open>
  One state for both sides, because they share memory: \<open>heap\<close> holds the live
  kernel allocations by base address, and a reader's view names a block of it.
  \<open>mmio\<close> and \<open>sim_uio\<close> are the module's two statics. \<open>uio_devs\<close> is what is
  registered with the UIO core. \<open>nodes\<close> and \<open>mmap_accepts\<close> are the external
  mapping mechanism as the reader meets it: which paths resolve, and which
  mapping lengths it grants on a resource.
\<close>

record machine =
  heap :: "nat \<Rightarrow> byte list option"
  mmio :: "nat option"
  sim_uio :: uio_info
  uio_devs :: "uio_info list"
  ktrace :: "kevent list"
  nodes :: "string \<Rightarrow> node option"
  mmap_accepts :: "node \<Rightarrow> nat \<Rightarrow> bool"
  vmas :: "view list"
  utrace :: "uevent list"

definition klog :: "kevent \<Rightarrow> machine \<Rightarrow> machine" where
  "klog e m = m\<lparr>ktrace := ktrace m @ [e]\<rparr>"

definition ulog :: "uevent \<Rightarrow> machine \<Rightarrow> machine" where
  "ulog e m = m\<lparr>utrace := utrace m @ [e]\<rparr>"

section \<open>Kernel services used by the provider\<close>

text \<open>
  \<open>kzalloc\<close>: the allocator either fails or returns a zeroed block at an address
  that is not live. Its choice is the argument \<open>alloc\<close>.
\<close>

definition kzalloc :: "nat \<Rightarrow> nat option \<Rightarrow> machine \<Rightarrow> nat option \<times> machine" where
  "kzalloc sz alloc m =
     (case alloc of
        None \<Rightarrow> (None, klog (EvKzalloc sz None) m)
      | Some a \<Rightarrow>
          if heap m a = None
          then (Some a, klog (EvKzalloc sz (Some a)) (m\<lparr>heap := (heap m)(a \<mapsto> replicate sz 0)\<rparr>))
          else (None, klog (EvKzalloc sz None) m))"

text \<open>\<open>kfree(NULL)\<close> does nothing; freeing an address that is not live is a fault.\<close>

definition kfree :: "nat option \<Rightarrow> machine \<Rightarrow> kfault + machine" where
  "kfree p m =
     (case p of
        None \<Rightarrow> Inr (klog (EvKfree None) m)
      | Some a \<Rightarrow>
          (case heap m a of
             None \<Rightarrow> Inl BadFree
           | Some bs \<Rightarrow> Inr (klog (EvKfree (Some a)) (m\<lparr>heap := (heap m)(a := None)\<rparr>))))"

text \<open>The store \<open>*(u32 *)(base + off) = v\<close>.\<close>

definition store_u32 :: "nat \<Rightarrow> nat \<Rightarrow> u32 \<Rightarrow> machine \<Rightarrow> kfault + machine" where
  "store_u32 base off v m =
     (case heap m base of
        None \<Rightarrow> Inl BadStore
      | Some bs \<Rightarrow>
          if off + 4 \<le> length bs
          then Inr (klog (EvStore32 base off v) (m\<lparr>heap := (heap m)(base \<mapsto> poke_u32 bs off v)\<rparr>))
          else Inl BadStore)"

definition region_of :: "machine \<Rightarrow> uio_info \<Rightarrow> byte list option" where
  "region_of m info = (case um_addr (ui_mem0 info) of None \<Rightarrow> None | Some a \<Rightarrow> heap m a)"

text \<open>
  \<open>uio_register_device(NULL, &sim_uio)\<close>: the UIO core accepts (0) or rejects
  (nonzero); its answer is the argument \<open>rc\<close>.
\<close>

definition uio_register_device :: "int \<Rightarrow> machine \<Rightarrow> int \<times> machine" where
  "uio_register_device rc m =
     (let info = sim_uio m; m' = klog (EvRegister info (region_of m info) rc) m
      in if rc = 0 then (0, m'\<lparr>uio_devs := info # uio_devs m'\<rparr>) else (rc, m'))"

definition uio_unregister_device :: "machine \<Rightarrow> machine" where
  "uio_unregister_device m =
     (let info = sim_uio m
      in klog (EvUnregister info) (m\<lparr>uio_devs := removeAll info (uio_devs m)\<rparr>))"

definition pr_err :: "string \<Rightarrow> machine \<Rightarrow> machine" where
  "pr_err s m = klog (EvPrintk s) m"

definition pr_info :: "string \<Rightarrow> machine \<Rightarrow> machine" where
  "pr_info s m = klog (EvPrintk s) m"

section \<open>The provider: \<open>uio_sim_sensor.c\<close>\<close>

definition sim_handler :: "int \<Rightarrow> uio_info \<Rightarrow> irqreturn" where
  "sim_handler irq info = IRQ_NONE"

definition sim_init :: "nat option \<Rightarrow> int \<Rightarrow> machine \<Rightarrow> kfault + int \<times> machine" where
  "sim_init alloc reg_rc m =
     (case kzalloc MMIO_SIZE alloc m of (p, m0) \<Rightarrow>
      let m1 = m0\<lparr>mmio := p\<rparr> in
      (case mmio m1 of
         None \<Rightarrow> Inr (- ENOMEM, m1)
       | Some base \<Rightarrow>
          (case store_u32 base 0x000 0x53554D31 m1 of Inl f \<Rightarrow> Inl f | Inr m2 \<Rightarrow>
          (case store_u32 base 0x004 0x00010000 m2 of Inl f \<Rightarrow> Inl f | Inr m3 \<Rightarrow>
          (case store_u32 base 0x008 0x1 m3 of Inl f \<Rightarrow> Inl f | Inr m4 \<Rightarrow>
           let m5 = m4\<lparr>sim_uio := (sim_uio m4)
                      \<lparr>ui_name := DRV_NAME,
                       ui_version := ''1.0'',
                       ui_irq := UIO_IRQ_NONE,
                       ui_handler := Ref_sim_handler,
                       ui_mem0 := \<lparr>um_addr = mmio m4, um_size = MMIO_SIZE,
                                   um_memtype = UIO_MEM_LOGICAL\<rparr>\<rparr>\<rparr>
           in
           (case uio_register_device reg_rc m5 of (rc, m6) \<Rightarrow>
              if rc \<noteq> 0
              then (case kfree (mmio m6) m6 of Inl f \<Rightarrow> Inl f | Inr m7 \<Rightarrow>
                      Inr (- ENODEV, pr_err (DRV_NAME @ '': register failed\<newline>'') m7))
              else Inr (0, pr_info (DRV_NAME @ '': registered /dev/uio0 size=4096\<newline>'') m6)))))))"

definition sim_exit :: "machine \<Rightarrow> kfault + machine" where
  "sim_exit m =
     (let m1 = uio_unregister_device m in
      (case kfree (mmio m1) m1 of Inl f \<Rightarrow> Inl f | Inr m2 \<Rightarrow>
         Inr (pr_info (DRV_NAME @ '': unloaded\<newline>'') m2)))"

section \<open>System calls used by the reader\<close>

text \<open>\<open>open(path, O_RDONLY)\<close>: the descriptor stands for the resource it names.\<close>

definition sys_open :: "string \<Rightarrow> machine \<Rightarrow> (errno + node) \<times> machine" where
  "sys_open path m =
     (case nodes m path of
        None \<Rightarrow> (Inl ENOENT, ulog (EvOpen path (Some ENOENT)) m)
      | Some n \<Rightarrow>
          if n_readable n then (Inr n, ulog (EvOpen path None) m)
          else (Inl EACCES, ulog (EvOpen path (Some EACCES)) m))"

text \<open>
  \<open>mmap(NULL, len, prot, MAP_SHARED, fd, 0)\<close>: granted or refused by the mapping
  mechanism. A granted mapping has the length that was asked for.
\<close>

definition sys_mmap :: "nat \<Rightarrow> prot \<Rightarrow> node \<Rightarrow> machine \<Rightarrow> (errno + view) \<times> machine" where
  "sys_mmap len pr fd m =
     (if mmap_accepts m fd len
      then (let v = \<lparr>v_block = n_block fd, v_len = len, v_prot = pr\<rparr>
            in (Inr v, ulog (EvMmap len pr None) (m\<lparr>vmas := v # vmas m\<rparr>)))
      else (Inl EINVAL, ulog (EvMmap len pr (Some EINVAL)) m))"

definition sys_munmap :: "view \<Rightarrow> nat \<Rightarrow> machine \<Rightarrow> machine" where
  "sys_munmap v len m = ulog (EvMunmap len) (m\<lparr>vmas := remove1 v (vmas m)\<rparr>)"

definition sys_close :: "node \<Rightarrow> machine \<Rightarrow> machine" where
  "sys_close fd m = ulog EvClose m"

definition perror :: "string \<Rightarrow> errno \<Rightarrow> machine \<Rightarrow> machine" where
  "perror s e m = ulog (EvPerror s e) m"

definition printf :: "float32 \<Rightarrow> float32 \<Rightarrow> float32 \<Rightarrow> float32 \<Rightarrow> machine \<Rightarrow> machine" where
  "printf ax ay az v m = ulog (EvPrintf ax ay az v) m"

definition usleep :: "nat \<Rightarrow> machine \<Rightarrow> machine" where
  "usleep us m = ulog (EvUsleep us) m"

section \<open>The reader: \<open>reader.c\<close>\<close>

text \<open>
  \<open>r32\<close> is the volatile load \<open>*(volatile float *)((uint8_t*)base + off)\<close>. The C has
  no check; the model writes out what the hardware does with a bad address:
  outside the mapping the load faults with \<open>SIGSEGV\<close>, inside a mapping whose
  backing block is gone or too short it faults with \<open>SIGBUS\<close>.
\<close>

definition r32 :: "view \<Rightarrow> nat \<Rightarrow> machine \<Rightarrow> (ufault + float32) \<times> machine" where
  "r32 base off m =
     (let m' = ulog (EvLoad off) m in
      if v_len base < off + 4 then (Inl SIGSEGV, m')
      else (case heap m (v_block base) of
              None \<Rightarrow> (Inl SIGBUS, m')
            | Some bs \<Rightarrow>
                if length bs < off + 4 then (Inl SIGBUS, m')
                else (Inr (load_u32 bs off), m')))"

text \<open>The four loads at the head of the loop body (\<open>main\<close>, lines 33 to 36).\<close>

definition sample ::
  "view \<Rightarrow> machine \<Rightarrow> (ufault + float32 \<times> float32 \<times> float32 \<times> float32) \<times> machine" where
  "sample regs m =
     (case r32 regs ACCEL_X m of (Inl f, m1) \<Rightarrow> (Inl f, m1) | (Inr ax, m1) \<Rightarrow>
     (case r32 regs ACCEL_Y m1 of (Inl f, m2) \<Rightarrow> (Inl f, m2) | (Inr ay, m2) \<Rightarrow>
     (case r32 regs ACCEL_Z m2 of (Inl f, m3) \<Rightarrow> (Inl f, m3) | (Inr az, m3) \<Rightarrow>
     (case r32 regs AIRSPEED m3 of (Inl f, m4) \<Rightarrow> (Inl f, m4) | (Inr v, m4) \<Rightarrow>
        (Inr (ax, ay, az, v), m4)))))"

text \<open>The loop \<open>for (int i=0; i<20; ++i)\<close>, from the value \<open>i\<close> on.\<close>

function run :: "view \<Rightarrow> nat \<Rightarrow> machine \<Rightarrow> (ufault + unit) \<times> machine" where
  "run regs i m =
     (if i < 20
      then (case sample regs m of
              (Inl f, m1) \<Rightarrow> (Inl f, m1)
            | (Inr (ax, ay, az, v), m1) \<Rightarrow>
                run regs (i + 1) (usleep 100000 (printf ax ay az v m1)))
      else (Inr (), m))"
  by pat_completeness auto
termination
  by (relation "measure (\<lambda>(regs, i, m). 20 - i)") auto

declare run.simps [simp del]

text \<open>
  \<open>main\<close>: \<open>argc\<close> is the length of \<open>argv\<close>; the result is the exit status.
  \<open>main_path\<close> is the choice of \<open>path\<close> in its first two lines.
\<close>

definition main_path :: "string list \<Rightarrow> string" where
  "main_path argv = (if length argv > 1 then argv ! 1 else ''/dev/uio0'')"

definition main :: "string list \<Rightarrow> machine \<Rightarrow> (ufault + int) \<times> machine" where
  "main argv m =
     (let path = main_path argv in
      (case sys_open path m of
         (Inl e, m1) \<Rightarrow> (Inr 1, perror ''open'' e m1)
       | (Inr fd, m1) \<Rightarrow>
          (case sys_mmap PAGE PROT_READ fd m1 of
             (Inl e, m2) \<Rightarrow> (Inr 1, perror ''mmap'' e m2)
           | (Inr regs, m2) \<Rightarrow>
              (case run regs 0 m2 of
                 (Inl f, m3) \<Rightarrow> (Inl f, m3)
               | (Inr u, m3) \<Rightarrow> (Inr 0, sys_close fd (sys_munmap regs PAGE m3))))))"

section \<open>A machine before the module is loaded\<close>

definition boot :: machine where
  "boot = \<lparr>heap = (\<lambda>a. None), mmio = None,
           sim_uio = \<lparr>ui_name = [], ui_version = [], ui_irq = 0, ui_handler = No_handler,
                      ui_mem0 = \<lparr>um_addr = None, um_size = 0, um_memtype = UIO_MEM_NONE\<rparr>\<rparr>,
           uio_devs = [], ktrace = [],
           nodes = (\<lambda>p. None), mmap_accepts = (\<lambda>n len. len \<le> n_size n),
           vmas = [], utrace = []\<rparr>"

section \<open>Observations on traces\<close>

definition ulogs :: "uevent list \<Rightarrow> machine \<Rightarrow> machine" where
  "ulogs es m = m\<lparr>utrace := utrace m @ es\<rparr>"

text \<open>What a run has added to the reader's trace.\<close>

definition new_events :: "machine \<Rightarrow> machine \<Rightarrow> uevent list" where
  "new_events m m' = drop (length (utrace m)) (utrace m')"

fun load_offsets :: "uevent list \<Rightarrow> nat list" where
  "load_offsets [] = []"
| "load_offsets (EvLoad off # es) = off # load_offsets es"
| "load_offsets (e # es) = load_offsets es"

fun mmap_prots :: "uevent list \<Rightarrow> prot list" where
  "mmap_prots [] = []"
| "mmap_prots (EvMmap len pr r # es) = pr # mmap_prots es"
| "mmap_prots (e # es) = mmap_prots es"

fun perrors :: "uevent list \<Rightarrow> (string \<times> errno) list" where
  "perrors [] = []"
| "perrors (EvPerror s e # es) = (s, e) # perrors es"
| "perrors (e # es) = perrors es"

fun printfs :: "uevent list \<Rightarrow> (float32 \<times> float32 \<times> float32 \<times> float32) list" where
  "printfs [] = []"
| "printfs (EvPrintf ax ay az v # es) = (ax, ay, az, v) # printfs es"
| "printfs (e # es) = printfs es"

text \<open>The events of one pass through the loop body over a region \<open>bs\<close>.\<close>

definition iteration :: "byte list \<Rightarrow> uevent list" where
  "iteration bs =
     [EvLoad 0x010, EvLoad 0x014, EvLoad 0x018, EvLoad 0x050,
      EvPrintf (load_u32 bs 0x010) (load_u32 bs 0x014) (load_u32 bs 0x018) (load_u32 bs 0x050),
      EvUsleep 100000]"

section \<open>Operations after initialisation\<close>

text \<open>
  The operations that can follow a successful \<open>sim_init\<close>: the reader's calls,
  whole runs of the reader, and the module's exit. A teardown that faults stops
  the kernel; the state is then kept as it was.
\<close>

datatype op =
    OpOpen string
  | OpMmap node
  | OpSample view
  | OpRun view
  | OpMunmap view
  | OpClose node
  | OpMain "string list"
  | OpExit

fun step :: "op \<Rightarrow> machine \<Rightarrow> machine" where
  "step (OpOpen path) m = snd (sys_open path m)"
| "step (OpMmap fd) m = snd (sys_mmap PAGE PROT_READ fd m)"
| "step (OpSample regs) m = snd (sample regs m)"
| "step (OpRun regs) m = snd (run regs 0 m)"
| "step (OpMunmap regs) m = sys_munmap regs PAGE m"
| "step (OpClose fd) m = sys_close fd m"
| "step (OpMain argv) m = snd (main argv m)"
| "step OpExit m = (case sim_exit m of Inl f \<Rightarrow> m | Inr m' \<Rightarrow> m')"

section \<open>Concrete machines\<close>

text \<open>
  A register block whose header is all zero (no magic, status not ready) and whose
  telemetry slots hold the patterns of 1.0, -9.807, 0.0 and 42.0.
\<close>

definition telemetry_block :: "byte list" where
  "telemetry_block =
     replicate 16 0 @ bytes_of_u32 0x3F800000 @ bytes_of_u32 0xC11CE979 @ bytes_of_u32 0
     @ replicate 52 0 @ bytes_of_u32 0x42280000 @ replicate 4012 0"

definition uio0 :: node where
  "uio0 = \<lparr>n_block = 4096, n_size = 4096, n_readable = True\<rparr>"

definition demo :: machine where
  "demo = boot\<lparr>heap := (heap boot)(4096 \<mapsto> telemetry_block),
               nodes := (nodes boot)(''/dev/uio0'' \<mapsto> uio0)\<rparr>"

text \<open>A resource of 8192 bytes under the default path.\<close>

definition wide :: node where
  "wide = \<lparr>n_block = 4096, n_size = 8192, n_readable = True\<rparr>"

definition wide_machine :: machine where
  "wide_machine = boot\<lparr>heap := (heap boot)(4096 \<mapsto> replicate 8192 0),
                       nodes := (nodes boot)(''/dev/uio0'' \<mapsto> wide)\<rparr>"

text \<open>
  A resource that cannot be read, and a mechanism that grants a mapping only of
  exactly the size of the resource, over the 8192-byte resource.
\<close>

definition locked :: machine where
  "locked = demo\<lparr>nodes := (nodes demo)(''/dev/uio0'' \<mapsto> uio0\<lparr>n_readable := False\<rparr>)\<rparr>"

definition strict :: machine where
  "strict = wide_machine\<lparr>mmap_accepts := (\<lambda>n len. len = n_size n)\<rparr>"

text \<open>
  Events as the loop body makes them: loads at the four telemetry offsets only,
  no mapping request and no diagnostic.
\<close>

definition body_events :: "uevent list \<Rightarrow> bool" where
  "body_events es =
     (set (load_offsets es) \<subseteq> {0x010, 0x014, 0x018, 0x050} \<and> mmap_prots es = [] \<and> perrors es = [])"

text \<open>
  The machine after the module has been loaded at boot with its block at 4096,
  and the machine after the module has then been unloaded once.
\<close>

definition loaded :: machine where
  "loaded = snd (projr (sim_init (Some 4096) 0 boot))"

definition torn_down :: machine where
  "torn_down = projr (sim_exit loaded)"

section \<open>Bookkeeping lemmas\<close>

lemma klog_fields [simp]:
  "heap (klog e m) = heap m"
  "mmio (klog e m) = mmio m"
  "sim_uio (klog e m) = sim_uio m"
  "uio_devs (klog e m) = uio_devs m"
  "nodes (klog e m) = nodes m"
  "mmap_accepts (klog e m) = mmap_accepts m"
  "vmas (klog e m) = vmas m"
  "utrace (klog e m) = utrace m"
  "ktrace (klog e m) = ktrace m @ [e]"
  by (simp_all add: klog_def)

lemma ulog_fields [simp]:
  "heap (ulog e m) = heap m"
  "mmio (ulog e m) = mmio m"
  "sim_uio (ulog e m) = sim_uio m"
  "uio_devs (ulog e m) = uio_devs m"
  "nodes (ulog e m) = nodes m"
  "mmap_accepts (ulog e m) = mmap_accepts m"
  "vmas (ulog e m) = vmas m"
  "ktrace (ulog e m) = ktrace m"
  "utrace (ulog e m) = utrace m @ [e]"
  by (simp_all add: ulog_def)

lemma ulogs_fields [simp]:
  "heap (ulogs es m) = heap m"
  "nodes (ulogs es m) = nodes m"
  "mmap_accepts (ulogs es m) = mmap_accepts m"
  "vmas (ulogs es m) = vmas m"
  "ktrace (ulogs es m) = ktrace m"
  "utrace (ulogs es m) = utrace m @ es"
  by (simp_all add: ulogs_def)

lemma ulogs_ulogs [simp]: "ulogs es' (ulogs es m) = ulogs (es @ es') m"
  by (simp add: ulogs_def)

lemma ulog_is_ulogs: "ulog e m = ulogs [e] m"
  by (simp add: ulogs_def ulog_def)

lemma new_events_ulogs [simp]: "new_events m (ulogs es m) = es"
  by (simp add: new_events_def)

lemma length_bytes_of_u32 [simp]: "length (bytes_of_u32 w) = 4"
  by (simp add: bytes_of_u32_def)

lemma length_poke_u32 [simp]: "off + 4 \<le> length bs \<Longrightarrow> length (poke_u32 bs off v) = length bs"
  by (simp add: poke_u32_def)

lemma load_poke_above:
  "off + 4 \<le> off' \<Longrightarrow> off + 4 \<le> length bs \<Longrightarrow> load_u32 (poke_u32 bs off v) off' = load_u32 bs off'"
  by (simp add: load_u32_def poke_u32_def)

section \<open>The provider\<close>

text \<open>The region as \<open>sim_init\<close> leaves it: twelve header bytes, then zeros.\<close>

lemma header_pokes:
  "poke_u32 (poke_u32 (poke_u32 (replicate 4096 0) 0 0x53554D31) 4 0x00010000) 8 1 =
     [0x31, 0x4D, 0x55, 0x53, 0, 0, 1, 0, 1, 0, 0, 0] @ replicate 4084 0"
  by (simp add: poke_u32_def bytes_of_u32_def)

lemma sim_init_accepted:
  assumes "heap m a = None"
  shows "\<exists>m'. sim_init (Some a) 0 m = Inr (0, m') \<and>
     mmio m' = Some a \<and>
     heap m' = (heap m)(a \<mapsto> [0x31, 0x4D, 0x55, 0x53, 0, 0, 1, 0, 1, 0, 0, 0] @ replicate 4084 0) \<and>
     uio_devs m' = sim_uio m' # uio_devs m \<and>
     nodes m' = nodes m \<and> mmap_accepts m' = mmap_accepts m \<and>
     vmas m' = vmas m \<and> utrace m' = utrace m"
  using assms
  by (simp add: sim_init_def kzalloc_def store_u32_def MMIO_SIZE_def
      uio_register_device_def region_of_def pr_info_def Let_def header_pokes)

lemma sim_init_zero:
  assumes "sim_init alloc rc m = Inr (0, m')"
  shows "\<exists>a. alloc = Some a \<and> heap m a = None \<and> rc = 0"
proof (cases alloc)
  case None
  with assms show ?thesis
    by (simp add: sim_init_def kzalloc_def ENOMEM_def)
next
  case (Some a)
  show ?thesis
  proof (cases "heap m a = None")
    case False
    with assms Some show ?thesis
      by (auto simp add: sim_init_def kzalloc_def ENOMEM_def)
  next
    case True
    with assms Some show ?thesis
      by (simp add: sim_init_def kzalloc_def store_u32_def MMIO_SIZE_def
          uio_register_device_def region_of_def kfree_def pr_err_def pr_info_def Let_def
          ENODEV_def split: if_splits)
  qed
qed

lemma sim_exit_live:
  assumes "mmio m = Some a" and "heap m a = Some bs"
  shows "\<exists>m'. sim_exit m = Inr m' \<and> mmio m' = Some a \<and>
     heap m' = (heap m)(a := None) \<and>
     uio_devs m' = removeAll (sim_uio m) (uio_devs m) \<and>
     vmas m' = vmas m \<and>
     ktrace m' = ktrace m @ [EvUnregister (sim_uio m), EvKfree (Some a),
                              EvPrintk ''uio_sim_sensor: unloaded\<newline>'']"
  using assms
  by (simp add: sim_exit_def uio_unregister_device_def kfree_def pr_info_def Let_def DRV_NAME_def)

lemma sim_exit_dangling:
  assumes "mmio m = Some a" and "heap m a = None"
  shows "sim_exit m = Inl BadFree"
  using assms
  by (simp add: sim_exit_def uio_unregister_device_def kfree_def Let_def)

lemma boot_fields [simp]:
  "heap boot a = None" "uio_devs boot = []" "ktrace boot = []" "vmas boot = []"
  "utrace boot = []" "mmio boot = None" "nodes boot p = None"
  "mmap_accepts boot n len = (len \<le> n_size n)"
  by (simp_all add: boot_def)

text \<open>
  C1. \<open>sim_init\<close>, given a fresh block, zero-fills 4096 bytes, stores the magic
  0x53554D31 at offset 0x000, the version 0x00010000 (major 1 in the upper half,
  minor 0 in the lower) at 0x004 and the nonzero status 1 at 0x008, and only then
  calls the registration: the region handed to the UIO core already carries the
  header, whatever the core answers. When the core accepts, \<open>sim_init\<close> returns 0,
  the block at \<open>mmio\<close> holds exactly that region and the device is registered;
  when it rejects, the block is gone again and nothing is registered.
\<close>

theorem sim_init_header_before_registration:
  "heap m a = None \<Longrightarrow>
   \<exists>r m' region rest.
     sim_init (Some a) rc m = Inr (r, m') \<and>
     ktrace m' = ktrace m @
       [EvKzalloc 4096 (Some a),
        EvStore32 a 0x000 0x53554D31,
        EvStore32 a 0x004 (push_bit 16 1 OR 0),
        EvStore32 a 0x008 1,
        EvRegister (sim_uio m') (Some region) rc] @ rest \<and>
     um_addr (ui_mem0 (sim_uio m')) = Some a \<and>
     um_size (ui_mem0 (sim_uio m')) = 4096 \<and>
     length region = 4096 \<and>
     load_u32 region 0x000 = 0x53554D31 \<and>
     load_u32 region 0x004 = 0x00010000 \<and>
     load_u32 region 0x008 \<noteq> 0 \<and>
     drop 12 region = replicate 4084 0 \<and>
     region = [0x31, 0x4D, 0x55, 0x53, 0, 0, 1, 0, 1, 0, 0, 0] @ replicate 4084 0 \<and>
     mmio m' = Some a \<and>
     r = (if rc = 0 then 0 else - ENODEV) \<and>
     heap m' = (if rc = 0 then (heap m)(a \<mapsto> region) else heap m) \<and>
     uio_devs m' = (if rc = 0 then sim_uio m' # uio_devs m else uio_devs m) \<and>
     nodes m' = nodes m \<and> vmas m' = vmas m \<and> utrace m' = utrace m"
proof (cases "rc = 0")
  case True
  assume "heap m a = None"
  then show ?thesis
    using True
    by (simp add: sim_init_def kzalloc_def store_u32_def MMIO_SIZE_def
        uio_register_device_def region_of_def pr_info_def Let_def
        header_pokes load_u32_def)
next
  case False
  assume h: "heap m a = None"
  then have "(heap m)(a := None) = heap m"
    by (intro ext) simp
  with h False show ?thesis
    by (simp add: sim_init_def kzalloc_def store_u32_def MMIO_SIZE_def
        uio_register_device_def region_of_def kfree_def pr_err_def Let_def
        header_pokes load_u32_def)
qed

theorem sim_init_header_before_registration_witness:
  "heap boot 4096 = None \<and>
   (\<exists>r m' region rest.
     sim_init (Some 4096) 0 boot = Inr (r, m') \<and>
     ktrace m' =
       [EvKzalloc 4096 (Some 4096),
        EvStore32 4096 0x000 0x53554D31,
        EvStore32 4096 0x004 0x00010000,
        EvStore32 4096 0x008 1,
        EvRegister (sim_uio m') (Some region) 0] @ rest \<and>
     um_addr (ui_mem0 (sim_uio m')) = Some 4096 \<and>
     um_size (ui_mem0 (sim_uio m')) = 4096 \<and>
     length region = 4096 \<and>
     load_u32 region 0x000 = 0x53554D31 \<and>
     load_u32 region 0x004 = 0x00010000 \<and>
     load_u32 region 0x008 \<noteq> 0 \<and>
     drop 12 region = replicate 4084 0 \<and>
     region = [0x31, 0x4D, 0x55, 0x53, 0, 0, 1, 0, 1, 0, 0, 0] @ replicate 4084 0 \<and>
     mmio m' = Some 4096 \<and>
     r = 0 \<and>
     heap m' = (heap boot)(4096 \<mapsto> region) \<and>
     uio_devs m' = [sim_uio m'])"
proof -
  have h: "heap boot 4096 = None" by simp
  from sim_init_header_before_registration [OF h, of 0]
  obtain r m' region rest where
    "sim_init (Some 4096) 0 boot = Inr (r, m')"
    "ktrace m' = ktrace boot @
       [EvKzalloc 4096 (Some 4096),
        EvStore32 4096 0x000 0x53554D31,
        EvStore32 4096 0x004 (push_bit 16 1 OR 0),
        EvStore32 4096 0x008 1,
        EvRegister (sim_uio m') (Some region) 0] @ rest"
    "um_addr (ui_mem0 (sim_uio m')) = Some 4096"
    "um_size (ui_mem0 (sim_uio m')) = 4096"
    "length region = 4096"
    "load_u32 region 0x000 = 0x53554D31"
    "load_u32 region 0x004 = 0x00010000"
    "load_u32 region 0x008 \<noteq> 0"
    "drop 12 region = replicate 4084 0"
    "region = [0x31, 0x4D, 0x55, 0x53, 0, 0, 1, 0, 1, 0, 0, 0] @ replicate 4084 0"
    "mmio m' = Some 4096"
    "r = (if (0::int) = 0 then 0 else - ENODEV)"
    "heap m' = (if (0::int) = 0 then (heap boot)(4096 \<mapsto> region) else heap boot)"
    "uio_devs m' = (if (0::int) = 0 then sim_uio m' # uio_devs boot else uio_devs boot)"
    by blast
  then have "sim_init (Some 4096) 0 boot = Inr (r, m') \<and>
     ktrace m' =
       [EvKzalloc 4096 (Some 4096),
        EvStore32 4096 0x000 0x53554D31,
        EvStore32 4096 0x004 0x00010000,
        EvStore32 4096 0x008 1,
        EvRegister (sim_uio m') (Some region) 0] @ rest \<and>
     um_addr (ui_mem0 (sim_uio m')) = Some 4096 \<and>
     um_size (ui_mem0 (sim_uio m')) = 4096 \<and>
     length region = 4096 \<and>
     load_u32 region 0x000 = 0x53554D31 \<and>
     load_u32 region 0x004 = 0x00010000 \<and>
     load_u32 region 0x008 \<noteq> 0 \<and>
     drop 12 region = replicate 4084 0 \<and>
     region = [0x31, 0x4D, 0x55, 0x53, 0, 0, 1, 0, 1, 0, 0, 0] @ replicate 4084 0 \<and>
     mmio m' = Some 4096 \<and>
     r = 0 \<and>
     heap m' = (heap boot)(4096 \<mapsto> region) \<and>
     uio_devs m' = [sim_uio m']"
    by simp
  with h show ?thesis by blast
qed

text \<open>
  C4. When the UIO core rejects the registration, \<open>sim_init\<close> frees the block it
  allocated, logs the failure and returns \<open>-ENODEV\<close>: the heap is as it was before
  the call and nothing has been added to the registered devices.
\<close>

theorem sim_init_rejected_releases_region:
  "heap m a = None \<Longrightarrow> rc \<noteq> 0 \<Longrightarrow>
   \<exists>m' region.
     sim_init (Some a) rc m = Inr (- ENODEV, m') \<and>
     heap m' = heap m \<and>
     uio_devs m' = uio_devs m \<and>
     ktrace m' = ktrace m @
       [EvKzalloc 4096 (Some a),
        EvStore32 a 0x000 0x53554D31,
        EvStore32 a 0x004 0x00010000,
        EvStore32 a 0x008 1,
        EvRegister (sim_uio m') (Some region) rc,
        EvKfree (Some a),
        EvPrintk ''uio_sim_sensor: register failed\<newline>'']"
  apply (simp add: sim_init_def kzalloc_def store_u32_def MMIO_SIZE_def
      uio_register_device_def region_of_def kfree_def pr_err_def Let_def DRV_NAME_def)
  apply (rule ext)
  apply simp
  done

theorem sim_init_rejected_releases_region_witness:
  "heap boot 4096 = None \<and> (-22 :: int) \<noteq> 0 \<and>
   (\<exists>m'. sim_init (Some 4096) (-22) boot = Inr (- ENODEV, m') \<and>
      heap m' = heap boot \<and> uio_devs m' = [])"
  using sim_init_rejected_releases_region [of boot 4096 "-22"] by auto


section \<open>The reader on a backed view\<close>

lemma ulogs_Nil [simp]: "ulogs [] m = m"
  by (simp add: ulogs_def)

lemma r32_backed:
  "off + 4 \<le> v_len regs \<Longrightarrow> heap m (v_block regs) = Some bs \<Longrightarrow> off + 4 \<le> length bs \<Longrightarrow>
   r32 regs off m = (Inr (load_u32 bs off), ulog (EvLoad off) m)"
  by (simp add: r32_def Let_def)

lemma sample_backed:
  "0x054 \<le> v_len regs \<Longrightarrow> heap m (v_block regs) = Some bs \<Longrightarrow> 0x054 \<le> length bs \<Longrightarrow>
   sample regs m =
     (Inr (load_u32 bs 0x010, load_u32 bs 0x014, load_u32 bs 0x018, load_u32 bs 0x050),
      ulogs [EvLoad 0x010, EvLoad 0x014, EvLoad 0x018, EvLoad 0x050] m)"
  by (simp add: sample_def r32_backed ACCEL_X_def ACCEL_Y_def ACCEL_Z_def AIRSPEED_def
      ulog_is_ulogs)

lemma run_backed:
  "0x054 \<le> v_len regs \<Longrightarrow> heap m (v_block regs) = Some bs \<Longrightarrow> 0x054 \<le> length bs \<Longrightarrow>
   run regs i m = (Inr (), ulogs (concat (replicate (20 - i) (iteration bs))) m)"
proof (induction n \<equiv> "20 - i" arbitrary: i m)
  case 0
  then show ?case by (subst run.simps) simp
next
  case (Suc n)
  let ?m' = "ulogs (iteration bs) m"
  have lt: "i < 20" and n: "n = 20 - (i + 1)"
    using Suc.hyps(2) by simp_all
  have s: "sample regs m =
      (Inr (load_u32 bs 0x010, load_u32 bs 0x014, load_u32 bs 0x018, load_u32 bs 0x050),
       ulogs [EvLoad 0x010, EvLoad 0x014, EvLoad 0x018, EvLoad 0x050] m)"
    using Suc.prems by (rule sample_backed)
  have "run regs i m = run regs (i + 1) ?m'"
    using lt s by (subst run.simps) (simp add: usleep_def printf_def iteration_def ulog_is_ulogs)
  also have "\<dots> = (Inr (), ulogs (concat (replicate (20 - (i + 1)) (iteration bs))) ?m')"
    using Suc.prems by (intro Suc.hyps(1)[OF n]) simp_all
  finally show ?case
    using n by (simp flip: Suc.hyps(2))
qed

lemma main_backed:
  assumes "nodes m (main_path argv) = Some n"
    and "n_readable n" and "mmap_accepts m n PAGE"
    and "heap m (n_block n) = Some bs" and "0x054 \<le> length bs"
  shows "main argv m =
     (Inr 0, ulogs ([EvOpen (main_path argv) None, EvMmap PAGE PROT_READ None]
                    @ concat (replicate 20 (iteration bs)) @ [EvMunmap PAGE, EvClose]) m)"
proof -
  define v where "v = \<lparr>v_block = n_block n, v_len = PAGE, v_prot = PROT_READ\<rparr>"
  define m2 where "m2 = ulog (EvMmap PAGE PROT_READ None)
                          ((ulog (EvOpen (main_path argv) None) m)\<lparr>vmas := v # vmas m\<rparr>)"
  have o: "sys_open (main_path argv) m = (Inr n, ulog (EvOpen (main_path argv) None) m)"
    using assms(1,2) by (simp add: sys_open_def)
  have mm: "sys_mmap PAGE PROT_READ n (ulog (EvOpen (main_path argv) None) m) = (Inr v, m2)"
    using assms(3) by (simp add: sys_mmap_def Let_def v_def m2_def)
  have r: "run v 0 m2 = (Inr (), ulogs (concat (replicate (20 - 0) (iteration bs))) m2)"
    using assms(4,5) by (intro run_backed) (simp_all add: PAGE_def v_def m2_def)
  have "main argv m =
      (Inr 0, sys_close n (sys_munmap v PAGE (ulogs (concat (replicate 20 (iteration bs))) m2)))"
    by (simp add: main_def Let_def o mm r)
  also have "sys_close n (sys_munmap v PAGE (ulogs (concat (replicate 20 (iteration bs))) m2))
     = ulogs ([EvOpen (main_path argv) None, EvMmap PAGE PROT_READ None]
                    @ concat (replicate 20 (iteration bs)) @ [EvMunmap PAGE, EvClose]) m"
    by (simp add: sys_close_def sys_munmap_def ulogs_def ulog_def m2_def)
  finally show ?thesis .
qed

lemma printfs_append [simp]: "printfs (xs @ ys) = printfs xs @ printfs ys"
  by (induction xs rule: printfs.induct) simp_all

lemma load_offsets_append [simp]: "load_offsets (xs @ ys) = load_offsets xs @ load_offsets ys"
  by (induction xs rule: load_offsets.induct) simp_all

lemma mmap_prots_append [simp]: "mmap_prots (xs @ ys) = mmap_prots xs @ mmap_prots ys"
  by (induction xs rule: mmap_prots.induct) simp_all

lemma perrors_append [simp]: "perrors (xs @ ys) = perrors xs @ perrors ys"
  by (induction xs rule: perrors.induct) simp_all

lemma printfs_iterations:
  "printfs (concat (replicate k (iteration bs))) =
     replicate k (load_u32 bs 0x010, load_u32 bs 0x014, load_u32 bs 0x018, load_u32 bs 0x050)"
  by (induction k) (simp_all add: iteration_def)

lemma load_offsets_iterations:
  "load_offsets (concat (replicate k (iteration bs))) = concat (replicate k [0x010, 0x014, 0x018, 0x050])"
  by (induction k) (simp_all add: iteration_def)

lemma perrors_iterations: "perrors (concat (replicate k (iteration bs))) = []"
  by (induction k) (simp_all add: iteration_def)

lemma mmap_prots_iterations: "mmap_prots (concat (replicate k (iteration bs))) = []"
  by (induction k) (simp_all add: iteration_def)

section \<open>The concrete machines\<close>

lemma length_telemetry_block [simp]: "length telemetry_block = 4096"
  by (simp add: telemetry_block_def)

lemma replicate_four: "replicate 4 x = [x, x, x, x]"
  by (simp add: numeral_eq_Suc)

lemma telemetry_block_fields [simp]:
  "load_u32 telemetry_block 0x000 = 0"
  "load_u32 telemetry_block 0x008 = 0"
  "load_u32 telemetry_block 0x010 = 0x3F800000"
  "load_u32 telemetry_block 0x014 = 0xC11CE979"
  "load_u32 telemetry_block 0x018 = 0"
  "load_u32 telemetry_block 0x050 = 0x42280000"
  by (simp_all add: telemetry_block_def load_u32_def bytes_of_u32_def replicate_four)

lemma demo_fields [simp]:
  "heap demo 4096 = Some telemetry_block"
  "nodes demo ''/dev/uio0'' = Some uio0"
  "mmap_accepts demo n len = (len \<le> n_size n)"
  "utrace demo = []" "vmas demo = []"
  by (simp_all add: demo_def boot_def)

lemma uio0_fields [simp]: "n_block uio0 = 4096" "n_size uio0 = 4096" "n_readable uio0"
  by (simp_all add: uio0_def)

lemma main_path_simps [simp]:
  "main_path [] = ''/dev/uio0''"
  "main_path [prog] = ''/dev/uio0''"
  "main_path (prog # p # rest) = p"
  by (simp_all add: main_path_def)

text \<open>
  C2. On a view that is mapped and backed over the telemetry zone, \<open>sample\<close> makes
  exactly four loads, at 0x010, 0x014, 0x018 and 0x050 in that order, and returns
  the four 32-bit values found there. It loads neither magic nor status, and
  overwriting both with any values leaves its result the same.
\<close>

theorem sample_four_loads_no_validation:
  "0x054 \<le> v_len regs \<Longrightarrow> heap m (v_block regs) = Some bs \<Longrightarrow> 0x054 \<le> length bs \<Longrightarrow>
   sample regs m =
     (Inr (load_u32 bs ACCEL_X, load_u32 bs ACCEL_Y, load_u32 bs ACCEL_Z, load_u32 bs AIRSPEED),
      m\<lparr>utrace := utrace m @ [EvLoad 0x010, EvLoad 0x014, EvLoad 0x018, EvLoad 0x050]\<rparr>) \<and>
   fst (sample regs (m\<lparr>heap := (heap m)(v_block regs \<mapsto> poke_u32 (poke_u32 bs 0x000 magic) 0x008 status)\<rparr>))
     = fst (sample regs m)"
proof -
  assume v: "0x054 \<le> v_len regs" and h: "heap m (v_block regs) = Some bs" and l: "0x054 \<le> length bs"
  let ?bs = "poke_u32 (poke_u32 bs 0x000 magic) 0x008 status"
  let ?m = "m\<lparr>heap := (heap m)(v_block regs \<mapsto> ?bs)\<rparr>"
  have same: "load_u32 ?bs off = load_u32 bs off" if "12 \<le> off" for off
    using that l by (simp add: load_poke_above)
  have "0x054 \<le> length ?bs" using l by simp
  moreover have "heap ?m (v_block regs) = Some ?bs" by simp
  ultimately have "sample regs ?m =
     (Inr (load_u32 ?bs 0x010, load_u32 ?bs 0x014, load_u32 ?bs 0x018, load_u32 ?bs 0x050),
      ulogs [EvLoad 0x010, EvLoad 0x014, EvLoad 0x018, EvLoad 0x050] ?m)"
    using v by (intro sample_backed)
  then show ?thesis
    using sample_backed [OF v h l]
    by (simp add: same ulogs_def ACCEL_X_def ACCEL_Y_def ACCEL_Z_def AIRSPEED_def)
qed

theorem sample_four_loads_no_validation_witness:
  "(0x054 :: nat) \<le> v_len \<lparr>v_block = 4096, v_len = 4096, v_prot = PROT_READ\<rparr> \<and>
   heap demo 4096 = Some telemetry_block \<and> 0x054 \<le> length telemetry_block \<and>
   load_u32 telemetry_block 0x000 = 0 \<and> load_u32 telemetry_block 0x008 = 0 \<and>
   sample \<lparr>v_block = 4096, v_len = 4096, v_prot = PROT_READ\<rparr> demo =
     (Inr (0x3F800000, 0xC11CE979, 0, 0x42280000),
      demo\<lparr>utrace := [EvLoad 0x010, EvLoad 0x014, EvLoad 0x018, EvLoad 0x050]\<rparr>)"
  using sample_four_loads_no_validation
    [of "\<lparr>v_block = 4096, v_len = 4096, v_prot = PROT_READ\<rparr>" demo telemetry_block]
  by (simp add: ACCEL_X_def ACCEL_Y_def ACCEL_Z_def AIRSPEED_def)

text \<open>
  C3. With the path resolving to a readable resource, the mapping granted and the
  telemetry zone backed, the loop runs its body exactly 20 times and returns: each
  pass is four loads, one \<open>printf\<close> of the four values and one \<open>usleep(100000)\<close>;
  20 samples are printed; after the twentieth pass \<open>main\<close> only unmaps, closes and
  exits with status 0. \<open>run\<close> is a total function, so the loop always ends.
\<close>

theorem run_twenty_iterations:
  "nodes m (main_path argv) = Some n \<Longrightarrow> n_readable n \<Longrightarrow> mmap_accepts m n PAGE \<Longrightarrow>
   heap m (n_block n) = Some bs \<Longrightarrow> 0x054 \<le> length bs \<Longrightarrow>
   run \<lparr>v_block = n_block n, v_len = PAGE, v_prot = PROT_READ\<rparr> 0 m =
     (Inr (), m\<lparr>utrace := utrace m @ concat (replicate 20
        [EvLoad 0x010, EvLoad 0x014, EvLoad 0x018, EvLoad 0x050,
         EvPrintf (load_u32 bs 0x010) (load_u32 bs 0x014) (load_u32 bs 0x018) (load_u32 bs 0x050),
         EvUsleep 100000])\<rparr>) \<and>
   main argv m =
     (Inr 0, m\<lparr>utrace := utrace m @
        [EvOpen (main_path argv) None, EvMmap PAGE PROT_READ None] @
        concat (replicate 20
          [EvLoad 0x010, EvLoad 0x014, EvLoad 0x018, EvLoad 0x050,
           EvPrintf (load_u32 bs 0x010) (load_u32 bs 0x014) (load_u32 bs 0x018) (load_u32 bs 0x050),
           EvUsleep 100000]) @
        [EvMunmap PAGE, EvClose]\<rparr>) \<and>
   length (printfs (new_events m (snd (main argv m)))) = 20 \<and>
   length (load_offsets (new_events m (snd (main argv m)))) = 80"
proof -
  assume a: "nodes m (main_path argv) = Some n" "n_readable n" "mmap_accepts m n PAGE"
    "heap m (n_block n) = Some bs" "0x054 \<le> length bs"
  have r: "run \<lparr>v_block = n_block n, v_len = PAGE, v_prot = PROT_READ\<rparr> 0 m =
      (Inr (), ulogs (concat (replicate (20 - 0) (iteration bs))) m)"
    using a(4,5) by (intro run_backed) (simp_all add: PAGE_def)
  note mn = main_backed [OF a]
  have c: "length (printfs (new_events m (snd (main argv m)))) = 20"
    by (simp add: mn printfs_iterations)
  have d: "length (load_offsets (new_events m (snd (main argv m)))) = 80"
    by (simp add: mn load_offsets_iterations length_concat sum_list_replicate)
  show ?thesis
    using r mn c d by (simp add: ulogs_def iteration_def)
qed

theorem run_twenty_iterations_witness:
  "nodes demo (main_path []) = Some uio0 \<and> n_readable uio0 \<and> mmap_accepts demo uio0 PAGE \<and>
   heap demo (n_block uio0) = Some telemetry_block \<and> 0x054 \<le> length telemetry_block \<and>
   main [] demo =
     (Inr 0, demo\<lparr>utrace :=
        [EvOpen ''/dev/uio0'' None, EvMmap PAGE PROT_READ None] @
        concat (replicate 20
          [EvLoad 0x010, EvLoad 0x014, EvLoad 0x018, EvLoad 0x050,
           EvPrintf 0x3F800000 0xC11CE979 0 0x42280000,
           EvUsleep 100000]) @
        [EvMunmap PAGE, EvClose]\<rparr>) \<and>
   length (printfs (new_events demo (snd (main [] demo)))) = 20"
proof -
  have hyp: "nodes demo (main_path []) = Some uio0" "n_readable uio0"
    "mmap_accepts demo uio0 PAGE" "heap demo (n_block uio0) = Some telemetry_block"
    "0x054 \<le> length telemetry_block"
    by (simp_all add: PAGE_def)
  note t = run_twenty_iterations [OF hyp]
  have 1: "main [] demo =
     (Inr 0, demo\<lparr>utrace :=
        [EvOpen ''/dev/uio0'' None, EvMmap PAGE PROT_READ None] @
        concat (replicate 20
          [EvLoad 0x010, EvLoad 0x014, EvLoad 0x018, EvLoad 0x050,
           EvPrintf 0x3F800000 0xC11CE979 0 0x42280000,
           EvUsleep 100000]) @
        [EvMunmap PAGE, EvClose]\<rparr>)"
    using t [THEN conjunct2, THEN conjunct1] by simp
  have 2: "length (printfs (new_events demo (snd (main [] demo)))) = 20"
    using t by (elim conjE)
  show ?thesis
    using hyp 1 2 by (intro conjI)
qed


section \<open>Frame of the reader\<close>

lemma heap_sys_open [simp]: "heap (snd (sys_open path m)) = heap m"
  by (simp add: sys_open_def split: option.splits)

lemma heap_sys_mmap [simp]: "heap (snd (sys_mmap len pr fd m)) = heap m"
  by (simp add: sys_mmap_def Let_def)

lemma heap_sys_munmap [simp]: "heap (sys_munmap regs len m) = heap m"
  by (simp add: sys_munmap_def)

lemma heap_sys_close [simp]: "heap (sys_close fd m) = heap m"
  by (simp add: sys_close_def)

lemma heap_perror [simp]: "heap (perror s e m) = heap m"
  by (simp add: perror_def)

lemma heap_printf [simp]: "heap (printf ax ay az v m) = heap m"
  by (simp add: printf_def)

lemma heap_usleep [simp]: "heap (usleep us m) = heap m"
  by (simp add: usleep_def)

lemma heap_r32 [simp]: "heap (snd (r32 regs off m)) = heap m"
  by (simp add: r32_def Let_def split: option.splits)

lemma r32_snd: "r32 regs off m = (r, m') \<Longrightarrow> m' = ulog (EvLoad off) m"
  by (auto simp add: r32_def Let_def split: option.splits if_splits)

lemma heap_sample [simp]: "heap (snd (sample regs m)) = heap m"
  by (auto simp add: sample_def split: prod.splits sum.splits dest!: r32_snd)

lemma heap_run [simp]: "heap (snd (run regs i m)) = heap m"
proof (induction n \<equiv> "20 - i" arbitrary: i m)
  case 0
  then show ?case by (subst run.simps) simp
next
  case (Suc n)
  then have lt: "i < 20" and n: "n = 20 - (i + 1)" by simp_all
  show ?case
  proof (cases "sample regs m")
    case (Pair r m1)
    have h1: "heap m1 = heap m" using heap_sample [of regs m] Pair by simp
    show ?thesis
    proof (cases r)
      case (Inl f)
      with Pair lt h1 show ?thesis by (subst run.simps) simp
    next
      case (Inr q)
      obtain ax ay az v where q: "q = (ax, ay, az, v)" by (cases q) auto
      have "run regs i m = run regs (i + 1) (usleep 100000 (printf ax ay az v m1))"
        using Pair Inr q lt by (subst run.simps) simp
      then show ?thesis
        using Suc.hyps(1) [OF n, of "usleep 100000 (printf ax ay az v m1)"] h1 by simp
    qed
  qed
qed

lemma heap_main [simp]: "heap (snd (main argv m)) = heap m"
proof (cases "sys_open (main_path argv) m")
  case o: (Pair r m1)
  have h1: "heap m1 = heap m" using heap_sys_open [of "main_path argv" m] o by simp
  show ?thesis
  proof (cases r)
    case (Inl e)
    with o h1 show ?thesis by (simp add: main_def)
  next
    case (Inr fd)
    show ?thesis
    proof (cases "sys_mmap PAGE PROT_READ fd m1")
      case mm: (Pair r2 m2)
      have h2: "heap m2 = heap m" using heap_sys_mmap [of PAGE PROT_READ fd m1] mm h1 by simp
      show ?thesis
      proof (cases r2)
        case (Inl e)
        with o Inr mm h2 show ?thesis by (simp add: main_def)
      next
        case r2: (Inr regs)
        show ?thesis
        proof (cases "run regs 0 m2")
          case rn: (Pair r3 m3)
          have h3: "heap m3 = heap m" using heap_run [of regs 0 m2] rn h2 by simp
          show ?thesis
            using o Inr mm r2 rn h3 by (cases r3) (simp_all add: main_def)
        qed
      qed
    qed
  qed
qed

lemma heap_sim_exit: "sim_exit m = Inr m' \<Longrightarrow> heap m' a = heap m a \<or> heap m' a = None"
  by (auto simp add: sim_exit_def uio_unregister_device_def kfree_def pr_info_def Let_def
      split: option.splits if_splits)

lemma heap_step: "heap (step x m) a = heap m a \<or> heap (step x m) a = None"
proof (cases x)
  case OpExit
  then show ?thesis
    using heap_sim_exit [of m _ a] by (cases "sim_exit m") auto
qed simp_all

lemma heap_step_reader: "x \<noteq> OpExit \<Longrightarrow> heap (step x m) = heap m"
  by (cases x) simp_all

lemma heap_steps: "heap (fold step ops m) a = heap m a \<or> heap (fold step ops m) a = None"
proof (induction ops arbitrary: m)
  case Nil
  then show ?case by simp
next
  case (Cons x ops)
  from Cons.IH [of "step x m"] heap_step [of x m a] show ?case by auto
qed

lemma heap_steps_reader: "OpExit \<notin> set ops \<Longrightarrow> heap (fold step ops m) = heap m"
proof (induction ops arbitrary: m)
  case Nil
  then show ?case by simp
next
  case (Cons x ops)
  then have "x \<noteq> OpExit" and "OpExit \<notin> set ops" by auto
  then show ?case
    using Cons.IH [of "step x m"] heap_step_reader [of x m] by simp
qed


section \<open>Shape of the reader's trace\<close>

lemma body_events_Nil [simp]: "body_events []"
  by (simp add: body_events_def)

lemma body_events_append [simp]: "body_events (xs @ ys) = (body_events xs \<and> body_events ys)"
  by (auto simp add: body_events_def)

lemma r32_mapped:
  "off + 4 \<le> v_len regs \<Longrightarrow>
   r32 regs off m = (Inl SIGBUS, ulogs [EvLoad off] m) \<or>
   (\<exists>x. r32 regs off m = (Inr x, ulogs [EvLoad off] m))"
  by (simp add: r32_def Let_def ulog_is_ulogs split: option.splits)

lemma sample_mapped:
  assumes "0x054 \<le> v_len regs"
  shows "\<exists>es. body_events es \<and>
     (sample regs m = (Inl SIGBUS, ulogs es m) \<or> (\<exists>q. sample regs m = (Inr q, ulogs es m)))"
proof -
  let ?e1 = "[EvLoad ACCEL_X]"
  let ?e2 = "[EvLoad ACCEL_X, EvLoad ACCEL_Y]"
  let ?e3 = "[EvLoad ACCEL_X, EvLoad ACCEL_Y, EvLoad ACCEL_Z]"
  let ?e4 = "[EvLoad ACCEL_X, EvLoad ACCEL_Y, EvLoad ACCEL_Z, EvLoad AIRSPEED]"
  have b: "body_events ?e1" "body_events ?e2" "body_events ?e3" "body_events ?e4"
    by (simp_all add: body_events_def ACCEL_X_def ACCEL_Y_def ACCEL_Z_def AIRSPEED_def)
  have v: "ACCEL_X + 4 \<le> v_len regs" "ACCEL_Y + 4 \<le> v_len regs"
    "ACCEL_Z + 4 \<le> v_len regs" "AIRSPEED + 4 \<le> v_len regs"
    using assms by (simp_all add: ACCEL_X_def ACCEL_Y_def ACCEL_Z_def AIRSPEED_def)
  consider
      (f1) "r32 regs ACCEL_X m = (Inl SIGBUS, ulogs ?e1 m)"
    | (f2) ax where "r32 regs ACCEL_X m = (Inr ax, ulogs ?e1 m)"
        "r32 regs ACCEL_Y (ulogs ?e1 m) = (Inl SIGBUS, ulogs ?e2 m)"
    | (f3) ax ay where "r32 regs ACCEL_X m = (Inr ax, ulogs ?e1 m)"
        "r32 regs ACCEL_Y (ulogs ?e1 m) = (Inr ay, ulogs ?e2 m)"
        "r32 regs ACCEL_Z (ulogs ?e2 m) = (Inl SIGBUS, ulogs ?e3 m)"
    | (f4) ax ay az where "r32 regs ACCEL_X m = (Inr ax, ulogs ?e1 m)"
        "r32 regs ACCEL_Y (ulogs ?e1 m) = (Inr ay, ulogs ?e2 m)"
        "r32 regs ACCEL_Z (ulogs ?e2 m) = (Inr az, ulogs ?e3 m)"
        "r32 regs AIRSPEED (ulogs ?e3 m) = (Inl SIGBUS, ulogs ?e4 m)"
    | (ok) ax ay az va where "r32 regs ACCEL_X m = (Inr ax, ulogs ?e1 m)"
        "r32 regs ACCEL_Y (ulogs ?e1 m) = (Inr ay, ulogs ?e2 m)"
        "r32 regs ACCEL_Z (ulogs ?e2 m) = (Inr az, ulogs ?e3 m)"
        "r32 regs AIRSPEED (ulogs ?e3 m) = (Inr va, ulogs ?e4 m)"
    using r32_mapped [OF v(1), of m] r32_mapped [OF v(2), of "ulogs ?e1 m"]
      r32_mapped [OF v(3), of "ulogs ?e2 m"] r32_mapped [OF v(4), of "ulogs ?e3 m"]
    by auto
  then show ?thesis
  proof cases
    case f1
    then have "sample regs m = (Inl SIGBUS, ulogs ?e1 m)" by (simp add: sample_def)
    with b(1) show ?thesis by blast
  next
    case f2
    then have "sample regs m = (Inl SIGBUS, ulogs ?e2 m)" by (simp add: sample_def)
    with b(2) show ?thesis by blast
  next
    case f3
    then have "sample regs m = (Inl SIGBUS, ulogs ?e3 m)" by (simp add: sample_def)
    with b(3) show ?thesis by blast
  next
    case f4
    then have "sample regs m = (Inl SIGBUS, ulogs ?e4 m)" by (simp add: sample_def)
    with b(4) show ?thesis by blast
  next
    case ok
    then have "sample regs m = (Inr (ax, ay, az, va), ulogs ?e4 m)" by (simp add: sample_def)
    with b(4) show ?thesis by blast
  qed
qed

lemma run_mapped:
  assumes "0x054 \<le> v_len regs"
  shows "\<exists>es. body_events es \<and>
     (run regs i m = (Inl SIGBUS, ulogs es m) \<or> run regs i m = (Inr (), ulogs es m))"
proof (induction n \<equiv> "20 - i" arbitrary: i m)
  case 0
  then have "run regs i m = (Inr (), ulogs [] m)" by (subst run.simps) simp
  then show ?case using body_events_Nil by blast
next
  case (Suc n)
  then have lt: "i < 20" and n: "n = 20 - (i + 1)" by simp_all
  from sample_mapped [OF assms, of m] obtain es where es: "body_events es"
    and s: "sample regs m = (Inl SIGBUS, ulogs es m) \<or> (\<exists>q. sample regs m = (Inr q, ulogs es m))"
    by blast
  from s show ?case
  proof
    assume "sample regs m = (Inl SIGBUS, ulogs es m)"
    then have "run regs i m = (Inl SIGBUS, ulogs es m)"
      using lt by (subst run.simps) simp
    with es show ?thesis by blast
  next
    assume "\<exists>q. sample regs m = (Inr q, ulogs es m)"
    then obtain ax ay az v where q: "sample regs m = (Inr (ax, ay, az, v), ulogs es m)"
      by (metis prod_cases4)
    let ?es = "es @ [EvPrintf ax ay az v, EvUsleep 100000]"
    have b: "body_events ?es" using es by (simp add: body_events_def)
    have r: "run regs i m = run regs (i + 1) (ulogs ?es m)"
      using lt q by (subst run.simps) (simp add: usleep_def printf_def ulog_is_ulogs)
    from Suc.hyps(1) [OF n, of "ulogs ?es m"] obtain es' where es': "body_events es'"
      and r': "run regs (i + 1) (ulogs ?es m) = (Inl SIGBUS, ulogs es' (ulogs ?es m)) \<or>
               run regs (i + 1) (ulogs ?es m) = (Inr (), ulogs es' (ulogs ?es m))"
      by blast
    have "body_events (?es @ es')" using b es' by (simp only: body_events_append simp_thms)
    moreover have "run regs i m = (Inl SIGBUS, ulogs (?es @ es') m) \<or>
                   run regs i m = (Inr (), ulogs (?es @ es') m)"
      using r r' by simp
    ultimately show ?thesis by blast
  qed
qed

lemma main_enoent:
  "nodes m (main_path argv) = None \<Longrightarrow>
   main argv m =
     (Inr 1, ulogs [EvOpen (main_path argv) (Some ENOENT), EvPerror ''open'' ENOENT] m)"
  by (simp add: main_def sys_open_def perror_def ulog_is_ulogs)

lemma main_eacces:
  "nodes m (main_path argv) = Some n \<Longrightarrow> \<not> n_readable n \<Longrightarrow>
   main argv m =
     (Inr 1, ulogs [EvOpen (main_path argv) (Some EACCES), EvPerror ''open'' EACCES] m)"
  by (simp add: main_def sys_open_def perror_def ulog_is_ulogs)

lemma main_refused:
  "nodes m (main_path argv) = Some n \<Longrightarrow> n_readable n \<Longrightarrow> \<not> mmap_accepts m n PAGE \<Longrightarrow>
   main argv m =
     (Inr 1, ulogs [EvOpen (main_path argv) None, EvMmap PAGE PROT_READ (Some EINVAL),
                    EvPerror ''mmap'' EINVAL] m)"
  by (simp add: main_def sys_open_def sys_mmap_def perror_def ulog_is_ulogs)

lemma ulogs_vmas: "ulogs es (m\<lparr>vmas := vs\<rparr>) = (ulogs es m)\<lparr>vmas := vs\<rparr>"
  by (simp add: ulogs_def)

lemma main_mapped:
  assumes "nodes m (main_path argv) = Some n" and "n_readable n" and "mmap_accepts m n PAGE"
  shows "\<exists>es. body_events es \<and>
     (main argv m =
        (Inl SIGBUS,
         (ulogs ([EvOpen (main_path argv) None, EvMmap PAGE PROT_READ None] @ es) m)
           \<lparr>vmas := \<lparr>v_block = n_block n, v_len = PAGE, v_prot = PROT_READ\<rparr> # vmas m\<rparr>) \<or>
      main argv m =
        (Inr 0,
         ulogs ([EvOpen (main_path argv) None, EvMmap PAGE PROT_READ None] @ es
                @ [EvMunmap PAGE, EvClose]) m))"
proof -
  define v where "v = \<lparr>v_block = n_block n, v_len = PAGE, v_prot = PROT_READ\<rparr>"
  define m2 where "m2 = (ulogs [EvOpen (main_path argv) None, EvMmap PAGE PROT_READ None] m)
                          \<lparr>vmas := v # vmas m\<rparr>"
  have o: "sys_open (main_path argv) m = (Inr n, ulogs [EvOpen (main_path argv) None] m)"
    using assms(1,2) by (simp add: sys_open_def ulog_is_ulogs)
  have mm: "sys_mmap PAGE PROT_READ n (ulogs [EvOpen (main_path argv) None] m) = (Inr v, m2)"
    using assms(3) by (simp add: sys_mmap_def Let_def v_def m2_def ulogs_def ulog_def)
  have "0x054 \<le> v_len v" by (simp add: v_def PAGE_def)
  from run_mapped [OF this, of 0 m2] obtain es where es: "body_events es"
    and r: "run v 0 m2 = (Inl SIGBUS, ulogs es m2) \<or> run v 0 m2 = (Inr (), ulogs es m2)"
    by blast
  from r show ?thesis
  proof
    assume "run v 0 m2 = (Inl SIGBUS, ulogs es m2)"
    then have "main argv m = (Inl SIGBUS, ulogs es m2)"
      by (simp add: main_def Let_def o mm)
    also have "ulogs es m2 =
        (ulogs ([EvOpen (main_path argv) None, EvMmap PAGE PROT_READ None] @ es) m)
           \<lparr>vmas := v # vmas m\<rparr>"
      by (simp add: m2_def ulogs_def)
    finally show ?thesis using es unfolding v_def by blast
  next
    assume "run v 0 m2 = (Inr (), ulogs es m2)"
    then have "main argv m = (Inr 0, sys_close n (sys_munmap v PAGE (ulogs es m2)))"
      by (simp add: main_def Let_def o mm)
    also have "sys_close n (sys_munmap v PAGE (ulogs es m2)) =
        ulogs ([EvOpen (main_path argv) None, EvMmap PAGE PROT_READ None] @ es
                @ [EvMunmap PAGE, EvClose]) m"
      by (simp add: m2_def ulogs_def sys_close_def sys_munmap_def ulog_def)
    finally show ?thesis using es by blast
  qed
qed

lemma new_events_ulogs_vmas [simp]: "new_events m ((ulogs es m)\<lparr>vmas := vs\<rparr>) = es"
  by (simp add: new_events_def)


lemma main_cases [case_names enoent eacces refused sigbus exit0]:
  obtains
    "nodes m (main_path argv) = None"
    "main argv m =
       (Inr 1, ulogs [EvOpen (main_path argv) (Some ENOENT), EvPerror ''open'' ENOENT] m)"
  | n where "nodes m (main_path argv) = Some n" "\<not> n_readable n"
    "main argv m =
       (Inr 1, ulogs [EvOpen (main_path argv) (Some EACCES), EvPerror ''open'' EACCES] m)"
  | n where "nodes m (main_path argv) = Some n" "n_readable n" "\<not> mmap_accepts m n PAGE"
    "main argv m =
       (Inr 1, ulogs [EvOpen (main_path argv) None, EvMmap PAGE PROT_READ (Some EINVAL),
                      EvPerror ''mmap'' EINVAL] m)"
  | n es where "nodes m (main_path argv) = Some n" "n_readable n" "mmap_accepts m n PAGE"
    "body_events es"
    "main argv m =
       (Inl SIGBUS,
        (ulogs ([EvOpen (main_path argv) None, EvMmap PAGE PROT_READ None] @ es) m)
          \<lparr>vmas := \<lparr>v_block = n_block n, v_len = PAGE, v_prot = PROT_READ\<rparr> # vmas m\<rparr>)"
  | n es where "nodes m (main_path argv) = Some n" "n_readable n" "mmap_accepts m n PAGE"
    "body_events es"
    "main argv m =
       (Inr 0,
        ulogs ([EvOpen (main_path argv) None, EvMmap PAGE PROT_READ None] @ es
               @ [EvMunmap PAGE, EvClose]) m)"
proof (cases "nodes m (main_path argv)")
  case None
  then show ?thesis using main_enoent that(1) by blast
next
  case (Some n)
  show ?thesis
  proof (cases "n_readable n")
    case False
    with Some show ?thesis using main_eacces that(2) by blast
  next
    case r: True
    show ?thesis
    proof (cases "mmap_accepts m n PAGE")
      case False
      with Some r show ?thesis using main_refused that(3) by blast
    next
      case True
      from main_mapped [OF Some r True] obtain es where "body_events es"
        and "main argv m =
        (Inl SIGBUS,
         (ulogs ([EvOpen (main_path argv) None, EvMmap PAGE PROT_READ None] @ es) m)
           \<lparr>vmas := \<lparr>v_block = n_block n, v_len = PAGE, v_prot = PROT_READ\<rparr> # vmas m\<rparr>) \<or>
      main argv m =
        (Inr 0,
         ulogs ([EvOpen (main_path argv) None, EvMmap PAGE PROT_READ None] @ es
                @ [EvMunmap PAGE, EvClose]) m)"
        by blast
      then show ?thesis using Some r True that(4,5) by blast
    qed
  qed
qed

section \<open>The loaded and the unloaded module\<close>

lemma loaded_init: "sim_init (Some 4096) 0 boot = Inr (0, loaded)"
  using sim_init_accepted [of boot 4096] by (auto simp add: loaded_def)

lemma loaded_fields [simp]:
  "mmio loaded = Some 4096"
  "heap loaded 4096 = Some ([0x31, 0x4D, 0x55, 0x53, 0, 0, 1, 0, 1, 0, 0, 0] @ replicate 4084 0)"
  "vmas loaded = []"
  using sim_init_accepted [of boot 4096] by (auto simp add: loaded_def)

lemma torn_down_exit: "sim_exit loaded = Inr torn_down"
  using sim_exit_live [of loaded 4096] by (auto simp add: torn_down_def)

lemma torn_down_fields [simp]: "mmio torn_down = Some 4096" "heap torn_down 4096 = None"
  using sim_exit_live [of loaded 4096] by (auto simp add: torn_down_def)

lemma header_fields:
  "load_u32 ([0x31, 0x4D, 0x55, 0x53, 0, 0, 1, 0, 1, 0, 0, 0] @ replicate 4084 0) 0x000 = 0x53554D31"
  "load_u32 ([0x31, 0x4D, 0x55, 0x53, 0, 0, 1, 0, 1, 0, 0, 0] @ replicate 4084 0) 0x004 = 0x00010000"
  "load_u32 ([0x31, 0x4D, 0x55, 0x53, 0, 0, 1, 0, 1, 0, 0, 0] @ replicate 4084 0) 0x008 = 1"
  by (simp_all add: load_u32_def)

text \<open>
  C5. After \<open>sim_init\<close> has returned 0, the block it registered holds the magic
  and the version, and no sequence of reader operations and module exits changes
  a byte of it: after any such sequence the block is either still there with the
  same bytes or has been freed by the exit, and it is still there when no exit
  was among the operations.
\<close>

theorem header_never_mutated:
  "sim_init alloc rc m = Inr (0, m1) \<Longrightarrow>
   \<exists>a bs. mmio m1 = Some a \<and> heap m1 a = Some bs \<and>
     load_u32 bs 0x000 = 0x53554D31 \<and> load_u32 bs 0x004 = 0x00010000 \<and>
     (heap (fold step ops m1) a = Some bs \<or> heap (fold step ops m1) a = None) \<and>
     (OpExit \<notin> set ops \<longrightarrow> heap (fold step ops m1) a = Some bs)"
proof -
  assume i: "sim_init alloc rc m = Inr (0, m1)"
  from sim_init_zero [OF i] obtain a where a: "alloc = Some a" "heap m a = None" "rc = 0"
    by blast
  from sim_init_accepted [OF a(2)] i a(1,3)
  have m1: "mmio m1 = Some a"
    "heap m1 a = Some ([0x31, 0x4D, 0x55, 0x53, 0, 0, 1, 0, 1, 0, 0, 0] @ replicate 4084 0)"
    by auto
  show ?thesis
    using m1 header_fields(1,2) heap_steps [of ops m1 a] heap_steps_reader [of ops m1]
    by auto
qed

theorem header_never_mutated_witness:
  "sim_init (Some 4096) 0 boot = Inr (0, loaded) \<and>
   (\<exists>bs. heap loaded 4096 = Some bs \<and>
      load_u32 bs 0x000 = 0x53554D31 \<and> load_u32 bs 0x004 = 0x00010000 \<and>
      heap (fold step [OpOpen ''/dev/uio0'',
                       OpSample \<lparr>v_block = 4096, v_len = 4096, v_prot = PROT_READ\<rparr>,
                       OpRun \<lparr>v_block = 4096, v_len = 4096, v_prot = PROT_READ\<rparr>,
                       OpMain []] loaded) 4096 = Some bs)"
  using header_never_mutated [OF loaded_init,
      of "[OpOpen ''/dev/uio0'',
           OpSample \<lparr>v_block = 4096, v_len = 4096, v_prot = PROT_READ\<rparr>,
           OpRun \<lparr>v_block = 4096, v_len = 4096, v_prot = PROT_READ\<rparr>,
           OpMain []]"] loaded_init
  by (simp del: fold_simps step.simps)

text \<open>
  C8, as the code has it. Called once on a module whose block is live, \<open>sim_exit\<close>
  unregisters the device, frees the block exactly once and returns, whatever
  mappings readers still hold. It keeps the pointer it has freed, so it is not
  idempotent: a second call frees the same address again and faults.
\<close>

theorem sim_exit_once_not_twice:
  "mmio m = Some a \<Longrightarrow> heap m a = Some bs \<Longrightarrow>
   \<exists>m'. sim_exit m = Inr m' \<and>
     heap m' = (heap m)(a := None) \<and>
     uio_devs m' = removeAll (sim_uio m) (uio_devs m) \<and>
     vmas m' = vmas m \<and>
     ktrace m' = ktrace m @ [EvUnregister (sim_uio m), EvKfree (Some a),
                              EvPrintk ''uio_sim_sensor: unloaded\<newline>''] \<and>
     sim_exit m' = Inl BadFree"
proof -
  assume p: "mmio m = Some a" and h: "heap m a = Some bs"
  from sim_exit_live [OF p h] obtain m' where m': "sim_exit m = Inr m'" "mmio m' = Some a"
    "heap m' = (heap m)(a := None)" "uio_devs m' = removeAll (sim_uio m) (uio_devs m)"
    "vmas m' = vmas m"
    "ktrace m' = ktrace m @ [EvUnregister (sim_uio m), EvKfree (Some a),
                              EvPrintk ''uio_sim_sensor: unloaded\<newline>'']"
    by blast
  have "sim_exit m' = Inl BadFree"
    using m'(2,3) by (intro sim_exit_dangling [of m' a]) simp_all
  with m' show ?thesis by blast
qed

theorem sim_exit_once_not_twice_witness:
  "mmio (loaded\<lparr>vmas := [\<lparr>v_block = 4096, v_len = 4096, v_prot = PROT_READ\<rparr>]\<rparr>) = Some 4096 \<and>
   heap (loaded\<lparr>vmas := [\<lparr>v_block = 4096, v_len = 4096, v_prot = PROT_READ\<rparr>]\<rparr>) 4096 =
     Some ([0x31, 0x4D, 0x55, 0x53, 0, 0, 1, 0, 1, 0, 0, 0] @ replicate 4084 0) \<and>
   (\<exists>m'. sim_exit (loaded\<lparr>vmas := [\<lparr>v_block = 4096, v_len = 4096, v_prot = PROT_READ\<rparr>]\<rparr>) = Inr m' \<and>
      heap m' 4096 = None \<and>
      vmas m' = [\<lparr>v_block = 4096, v_len = 4096, v_prot = PROT_READ\<rparr>] \<and>
      sim_exit m' = Inl BadFree)"
  using sim_exit_once_not_twice
    [of "loaded\<lparr>vmas := [\<lparr>v_block = 4096, v_len = 4096, v_prot = PROT_READ\<rparr>]\<rparr>" 4096
        "[0x31, 0x4D, 0x55, 0x53, 0, 0, 1, 0, 1, 0, 0, 0] @ replicate 4084 0"]
  by auto

text \<open>
  C8, as stated, fails: after a successful load at boot, the first \<open>sim_exit\<close>
  returns and the second one frees the freed block again.
\<close>

theorem sim_exit_twice_counterexample:
  "sim_init (Some 4096) 0 boot = Inr (0, loaded) \<and>
   sim_exit loaded = Inr torn_down \<and>
   sim_exit torn_down = Inl BadFree"
  using loaded_init torn_down_exit sim_exit_dangling [of torn_down 4096] by simp


section \<open>Claims on the reader's accesses and its exit status\<close>

lemma wide_fields [simp]: "n_block wide = 4096" "n_size wide = 8192" "n_readable wide"
  by (simp_all add: wide_def)

lemma wide_machine_fields [simp]:
  "heap wide_machine 4096 = Some (replicate 8192 0)"
  "nodes wide_machine ''/dev/uio0'' = Some wide"
  "mmap_accepts wide_machine n len = (len \<le> n_size n)"
  "utrace wide_machine = []" "vmas wide_machine = []"
  by (simp_all add: wide_machine_def boot_def)

lemma strict_fields [simp]:
  "nodes strict ''/dev/uio0'' = Some wide"
  "mmap_accepts strict n len = (len = n_size n)"
  "utrace strict = []" "vmas strict = []"
  by (simp_all add: strict_def wide_machine_def boot_def)

lemma locked_fields [simp]:
  "nodes locked ''/dev/uio0'' = Some (uio0\<lparr>n_readable := False\<rparr>)"
  "utrace locked = []"
  by (simp_all add: locked_def demo_def boot_def)

lemma body_events_loads:
  "body_events es \<Longrightarrow>
   list_all (\<lambda>off. off \<in> {ACCEL_X, ACCEL_Y, ACCEL_Z, AIRSPEED} \<and> off mod 4 = 0 \<and>
                    off + 3 \<le> 0x053 \<and> off + 4 \<le> PAGE) (load_offsets es)"
  by (auto simp add: body_events_def list_all_iff ACCEL_X_def ACCEL_Y_def ACCEL_Z_def
      AIRSPEED_def PAGE_def)

text \<open>
  C10. No reader operation changes kernel memory: the heap, and so every byte of
  the register block, is the same after \<open>open\<close>, \<open>mmap\<close>, a load, a sample, the
  loop, \<open>munmap\<close>, \<open>close\<close> and the whole of \<open>main\<close> as before; and the one mapping
  \<open>main\<close> may ask for is read-only.
\<close>

theorem reader_never_writes:
  "heap (snd (sys_open path m)) = heap m \<and>
   heap (snd (sys_mmap PAGE PROT_READ fd m)) = heap m \<and>
   heap (snd (r32 regs off m)) = heap m \<and>
   heap (snd (sample regs m)) = heap m \<and>
   heap (snd (run regs i m)) = heap m \<and>
   heap (sys_munmap regs PAGE m) = heap m \<and>
   heap (sys_close fd m) = heap m \<and>
   heap (snd (main argv m)) = heap m \<and>
   mmap_prots (new_events m (snd (main argv m))) \<in> {[], [PROT_READ]}"
proof -
  have "mmap_prots (new_events m (snd (main argv m))) \<in> {[], [PROT_READ]}"
    by (cases rule: main_cases [of m argv]) (simp_all add: body_events_def)
  then show ?thesis by simp
qed

theorem reader_never_writes_witness:
  "heap (snd (main [] demo)) 4096 = Some telemetry_block \<and>
   mmap_prots (new_events demo (snd (main [] demo))) = [PROT_READ]"
proof -
  have hyp: "nodes demo (main_path []) = Some uio0" "n_readable uio0"
    "mmap_accepts demo uio0 PAGE" "heap demo (n_block uio0) = Some telemetry_block"
    "0x054 \<le> length telemetry_block"
    by (simp_all add: PAGE_def)
  have "heap (snd (main [] demo)) = heap demo"
    using reader_never_writes [where argv = "[]" and m = demo] by blast
  moreover have "mmap_prots (new_events demo (snd (main [] demo))) = [PROT_READ]"
    by (simp add: main_backed [OF hyp] mmap_prots_iterations)
  ultimately show ?thesis by simp
qed

text \<open>
  C9. Every load \<open>main\<close> makes is at one of the offsets 0x010, 0x014, 0x018 and
  0x050: a multiple of four, its last byte at 0x053 or below, all four bytes
  inside the 4096 bytes of the mapping. So the bounds check of \<open>r32\<close> never
  fails in \<open>main\<close>, nor at any of the four offsets on a view of \<open>PAGE\<close> bytes.
\<close>

theorem reader_loads_in_bounds:
  "fst (main argv m) \<noteq> Inl SIGSEGV \<and>
   list_all (\<lambda>off. off \<in> {ACCEL_X, ACCEL_Y, ACCEL_Z, AIRSPEED} \<and> off mod 4 = 0 \<and>
                    off + 3 \<le> 0x053 \<and> off + 4 \<le> PAGE)
     (load_offsets (new_events m (snd (main argv m)))) \<and>
   fst (r32 (regs\<lparr>v_len := PAGE\<rparr>) ACCEL_X m) \<noteq> Inl SIGSEGV \<and>
   fst (r32 (regs\<lparr>v_len := PAGE\<rparr>) ACCEL_Y m) \<noteq> Inl SIGSEGV \<and>
   fst (r32 (regs\<lparr>v_len := PAGE\<rparr>) ACCEL_Z m) \<noteq> Inl SIGSEGV \<and>
   fst (r32 (regs\<lparr>v_len := PAGE\<rparr>) AIRSPEED m) \<noteq> Inl SIGSEGV"
proof -
  have a: "fst (main argv m) \<noteq> Inl SIGSEGV"
    by (cases rule: main_cases [of m argv]) simp_all
  have b: "list_all (\<lambda>off. off \<in> {ACCEL_X, ACCEL_Y, ACCEL_Z, AIRSPEED} \<and> off mod 4 = 0 \<and>
                    off + 3 \<le> 0x053 \<and> off + 4 \<le> PAGE)
     (load_offsets (new_events m (snd (main argv m))))"
  proof (cases rule: main_cases [of m argv])
    case (sigbus n es)
    then show ?thesis using body_events_loads [of es] by simp
  next
    case (exit0 n es)
    then show ?thesis using body_events_loads [of es] by simp
  qed simp_all
  have c: "fst (r32 (regs\<lparr>v_len := PAGE\<rparr>) off m) \<noteq> Inl SIGSEGV"
    if "off \<in> {ACCEL_X, ACCEL_Y, ACCEL_Z, AIRSPEED}" for off
    using that
    by (auto simp add: r32_def Let_def PAGE_def ACCEL_X_def ACCEL_Y_def ACCEL_Z_def
        AIRSPEED_def split: option.splits)
  show ?thesis using a b c by simp
qed

theorem reader_loads_in_bounds_witness:
  "fst (main [] demo) = Inr 0 \<and>
   load_offsets (new_events demo (snd (main [] demo))) =
     concat (replicate 20 [0x010, 0x014, 0x018, 0x050]) \<and>
   list_all (\<lambda>off. off \<in> {ACCEL_X, ACCEL_Y, ACCEL_Z, AIRSPEED} \<and> off mod 4 = 0 \<and>
                    off + 3 \<le> 0x053 \<and> off + 4 \<le> PAGE)
     (load_offsets (new_events demo (snd (main [] demo))))"
proof -
  have hyp: "nodes demo (main_path []) = Some uio0" "n_readable uio0"
    "mmap_accepts demo uio0 PAGE" "heap demo (n_block uio0) = Some telemetry_block"
    "0x054 \<le> length telemetry_block"
    by (simp_all add: PAGE_def)
  have 1: "fst (main [] demo) = Inr 0"
    by (simp add: main_backed [OF hyp])
  have 2: "load_offsets (new_events demo (snd (main [] demo))) =
     concat (replicate 20 [0x010, 0x014, 0x018, 0x050])"
    by (simp add: main_backed [OF hyp] load_offsets_iterations)
  have 3: "list_all (\<lambda>off. off \<in> {ACCEL_X, ACCEL_Y, ACCEL_Z, AIRSPEED} \<and> off mod 4 = 0 \<and>
                    off + 3 \<le> 0x053 \<and> off + 4 \<le> PAGE)
     (load_offsets (new_events demo (snd (main [] demo))))"
    using reader_loads_in_bounds [of "[]" demo] by blast
  show ?thesis using 1 2 3 by (intro conjI)
qed

text \<open>
  C6, as the code has it. \<open>main\<close> never looks at the size of what the path
  resolves to: it asks for a read-only mapping of \<open>PAGE\<close> bytes, and it fails
  exactly when the mapping mechanism refuses that request. It then prints the
  \<open>mmap\<close> diagnostic and exits with status 1, with no mapping made, no load and
  no sample printed.
\<close>

theorem reader_fails_iff_mapping_refused:
  "nodes m (main_path argv) = Some n \<Longrightarrow> n_readable n \<Longrightarrow>
   (fst (main argv m) = Inr 1) = (\<not> mmap_accepts m n PAGE) \<and>
   (\<not> mmap_accepts m n PAGE \<longrightarrow>
      main argv m =
        (Inr 1, m\<lparr>utrace := utrace m @
           [EvOpen (main_path argv) None, EvMmap PAGE PROT_READ (Some EINVAL),
            EvPerror ''mmap'' EINVAL]\<rparr>) \<and>
      vmas (snd (main argv m)) = vmas m \<and>
      load_offsets (new_events m (snd (main argv m))) = [] \<and>
      printfs (new_events m (snd (main argv m))) = [])"
proof -
  assume n: "nodes m (main_path argv) = Some n" and r: "n_readable n"
  show ?thesis
  proof (cases "mmap_accepts m n PAGE")
    case False
    from main_refused [OF n r False] show ?thesis
      using False by (simp add: ulogs_def new_events_def)
  next
    case True
    from main_mapped [OF n r True] have "fst (main argv m) \<noteq> Inr 1" by auto
    with True show ?thesis by simp
  qed
qed

theorem reader_fails_iff_mapping_refused_witness:
  "nodes strict (main_path []) = Some wide \<and> n_readable wide \<and>
   \<not> mmap_accepts strict wide PAGE \<and> n_size wide = 8192 \<and>
   main [] strict =
     (Inr 1, strict\<lparr>utrace :=
        [EvOpen ''/dev/uio0'' None, EvMmap PAGE PROT_READ (Some EINVAL),
         EvPerror ''mmap'' EINVAL]\<rparr>)"
  using reader_fails_iff_mapping_refused [of strict "[]" wide]
  by (simp add: PAGE_def)

text \<open>
  C6, as stated, fails: the default path resolves to a readable resource of 8192
  bytes, the mechanism grants the 4096-byte mapping, and \<open>main\<close> maps it, prints
  20 samples and exits with status 0.
\<close>

theorem size_not_checked_counterexample:
  "nodes wide_machine (main_path []) = Some wide \<and> n_size wide \<noteq> 4096 \<and>
   fst (main [] wide_machine) = Inr 0 \<and>
   mmap_prots (new_events wide_machine (snd (main [] wide_machine))) = [PROT_READ] \<and>
   length (printfs (new_events wide_machine (snd (main [] wide_machine)))) = 20"
proof -
  have hyp: "nodes wide_machine (main_path []) = Some wide" "n_readable wide"
    "mmap_accepts wide_machine wide PAGE" "heap wide_machine (n_block wide) = Some (replicate 8192 0)"
    "0x054 \<le> length (replicate 8192 (0::byte))"
    by (simp_all add: PAGE_def)
  show ?thesis
    by (simp add: main_backed [OF hyp] mmap_prots_iterations printfs_iterations)
qed

text \<open>
  C7. \<open>main\<close> takes its path from \<open>argv[1]\<close> when there is one and ignores any
  further argument; without one the path is \<open>/dev/uio0\<close>. It exits with status 1
  exactly when \<open>open\<close> fails or the mapping is refused, and then \<open>perror\<close> has
  printed one diagnostic, \<open>open\<close> or \<open>mmap\<close>; otherwise it prints none, and exits
  with status 0 once the loop is through (the loop is only cut short by a bus
  error, when the mapping has no memory behind it).
\<close>

theorem reader_command_line_and_exit_status:
  "main_path [] = ''/dev/uio0'' \<and> main_path [prog] = ''/dev/uio0'' \<and>
   main_path (prog # p # rest) = p \<and>
   fst (main argv m) \<in> {Inr 0, Inr 1, Inl SIGBUS} \<and>
   (fst (main argv m) = Inr 1) =
     (case nodes m (main_path argv) of
        None \<Rightarrow> True
      | Some n \<Rightarrow> \<not> n_readable n \<or> \<not> mmap_accepts m n PAGE) \<and>
   perrors (new_events m (snd (main argv m))) =
     (case nodes m (main_path argv) of
        None \<Rightarrow> [(''open'', ENOENT)]
      | Some n \<Rightarrow>
          if \<not> n_readable n then [(''open'', EACCES)]
          else if \<not> mmap_accepts m n PAGE then [(''mmap'', EINVAL)]
          else []) \<and>
   (\<forall>n bs. nodes m (main_path argv) = Some n \<and> n_readable n \<and> mmap_accepts m n PAGE \<and>
       heap m (n_block n) = Some bs \<and> 0x054 \<le> length bs \<longrightarrow> fst (main argv m) = Inr 0)"
proof -
  have a: "fst (main argv m) \<in> {Inr 0, Inr 1, Inl SIGBUS}"
    by (cases rule: main_cases [of m argv]) simp_all
  have b: "(fst (main argv m) = Inr 1) =
     (case nodes m (main_path argv) of
        None \<Rightarrow> True
      | Some n \<Rightarrow> \<not> n_readable n \<or> \<not> mmap_accepts m n PAGE)"
    by (cases rule: main_cases [of m argv]) simp_all
  have c: "perrors (new_events m (snd (main argv m))) =
     (case nodes m (main_path argv) of
        None \<Rightarrow> [(''open'', ENOENT)]
      | Some n \<Rightarrow>
          if \<not> n_readable n then [(''open'', EACCES)]
          else if \<not> mmap_accepts m n PAGE then [(''mmap'', EINVAL)]
          else [])"
    by (cases rule: main_cases [of m argv]) (simp_all add: body_events_def)
  have d: "fst (main argv m) = Inr 0"
    if "nodes m (main_path argv) = Some n" "n_readable n" "mmap_accepts m n PAGE"
      "heap m (n_block n) = Some bs" "0x054 \<le> length bs" for n bs
    using main_backed [OF that] by simp
  show ?thesis using a b c d by simp
qed

theorem reader_command_line_and_exit_status_witness:
  "main_path [''reader'', ''/dev/uio1'', ''more''] = ''/dev/uio1'' \<and>
   fst (main [] demo) = Inr 0 \<and> perrors (new_events demo (snd (main [] demo))) = [] \<and>
   fst (main [] boot) = Inr 1 \<and>
   perrors (new_events boot (snd (main [] boot))) = [(''open'', ENOENT)] \<and>
   fst (main [] locked) = Inr 1 \<and>
   perrors (new_events locked (snd (main [] locked))) = [(''open'', EACCES)] \<and>
   fst (main [] strict) = Inr 1 \<and>
   perrors (new_events strict (snd (main [] strict))) = [(''mmap'', EINVAL)]"
proof -
  note t = reader_command_line_and_exit_status
  have p: "main_path [''reader'', ''/dev/uio1'', ''more''] = ''/dev/uio1''"
    using t [of "''reader''" "''/dev/uio1''" "[''more'']"] by blast
  have d0: "nodes demo (main_path []) = Some uio0 \<and> n_readable uio0 \<and>
      mmap_accepts demo uio0 PAGE \<and> heap demo (n_block uio0) = Some telemetry_block \<and>
      0x054 \<le> length telemetry_block"
    by (simp add: PAGE_def)
  have d1: "fst (main [] demo) = Inr 0"
    using t [of _ _ _ "[]" demo] d0 by blast
  have d2: "perrors (new_events demo (snd (main [] demo))) = []"
    using t [of _ _ _ "[]" demo] by (simp add: PAGE_def)
  have b1: "fst (main [] boot) = Inr 1"
    using t [of _ _ _ "[]" boot] by simp
  have b2: "perrors (new_events boot (snd (main [] boot))) = [(''open'', ENOENT)]"
    using t [of _ _ _ "[]" boot] by simp
  have l1: "fst (main [] locked) = Inr 1"
    using t [of _ _ _ "[]" locked] by simp
  have l2: "perrors (new_events locked (snd (main [] locked))) = [(''open'', EACCES)]"
    using t [of _ _ _ "[]" locked] by simp
  have s1: "fst (main [] strict) = Inr 1"
    using t [of _ _ _ "[]" strict] by (simp add: PAGE_def)
  have s2: "perrors (new_events strict (snd (main [] strict))) = [(''mmap'', EINVAL)]"
    using t [of _ _ _ "[]" strict] by (simp add: PAGE_def)
  show ?thesis using p d1 d2 b1 b2 l1 l2 s1 s2 by (intro conjI)
qed


end
